theory Spec2Isabelle
  imports Main "HOL-Library.AList" "HOL-Library.Word"
begin

section \<open>The data model of \<^verbatim>\<open>src/src/datamodel.py\<close>\<close>

text \<open>
  \<^verbatim>\<open>DataModel\<close> keeps per-image object counts, a cumulative-sum array for drawing
  random objects, and the group maps of the images. The database layer (\<^verbatim>\<open>dbconnect\<close>)
  and the properties (\<^verbatim>\<open>properties\<close>) are imported modules; their answers are the
  fields of the records \<open>dbconnect\<close> and \<open>properties\<close> below.

  Conventions of the embedding:
  \<^item> an image key is a tuple of integers, here an \<open>int list\<close>; the conversion
    \<^verbatim>\<open>tuple([int(k) for k in key])\<close> is the identity on such keys;
  \<^item> a Python \<^verbatim>\<open>dict\<close> is an association list with distinct keys; the order of the
    list is the iteration order of the dictionary, which Python keeps fixed as long as
    the dictionary is not modified. \<open>AList.update\<close> overwrites an existing key in place
    and appends a new one;
  \<^item> a NumPy array of \<^verbatim>\<open>dtype='int'\<close> holds C longs: it is a list of machine words
    \<open>'w word\<close>, read as signed numbers by \<open>sint\<close>, and arithmetic that ends in such
    an array wraps around. The width \<open>'w\<close> is that of a C long on the platform (64 bits
    on Linux and macOS, 32 on Windows) and is left open; Python's own integers are
    unbounded and are \<open>int\<close>;
  \<^item> the singleton's attributes are the fields of the record \<open>model\<close>, whose type
    argument is the element type of \<open>cumSums\<close>; a method takes
    the model and returns its result together with the model it leaves behind, also
    when it raises;
  \<^item> a raised exception is the \<open>Inl\<close> of a sum.
\<close>

type_synonym imkey = "int list"

datatype val = IntV int | StrV string

type_synonym gkey = "val list"

datatype pytype = TInt | TStr

datatype error = KeyError | IndexError | ValueError | AttributeError

datatype keys_result = KeyList "imkey list" | KeySet "imkey set"

record dbconnect =
  db_GetAllImageKeys :: "imkey list"
  db_GetPerImageObjectCounts :: "(imkey \<times> int) list"
  db_GetObjectIDAtIndex :: "imkey \<Rightarrow> int \<Rightarrow> imkey"
  db_GetGroupMaps :: "(string \<times> (imkey \<times> gkey) list) list \<times> (string \<times> string list) list"
  db_GetGroupMaps_reverse ::
    "(string \<times> (gkey \<times> imkey list) list) list \<times> (string \<times> string list) list"
  db_execute :: "string \<Rightarrow> imkey list"

record properties =
  p_filters :: "(string \<times> string) list"

record 'c model =
  data :: "(imkey \<times> int) list"
  groupMaps :: "(string \<times> (imkey \<times> gkey) list) list"
  revGroupMaps :: "(string \<times> (gkey \<times> imkey list) list) list"
  groupColNames :: "(string \<times> string list) list"
  groupColTypes :: "(string \<times> pytype list) list"
  cumSums :: "'c list"
  obCount :: int
  keylist :: "imkey list"
  filterkeys :: "(string \<times> imkey set) list"

subsection \<open>Python and NumPy primitives\<close>

text \<open>\<^verbatim>\<open>d[k]\<close> raises \<^verbatim>\<open>KeyError\<close> on a missing key.\<close>

definition dict_get :: "('k \<times> 'v) list \<Rightarrow> 'k \<Rightarrow> error + 'v" where
  "dict_get d k = (case map_of d k of None \<Rightarrow> Inl KeyError | Some v \<Rightarrow> Inr v)"

text \<open>
  \<^verbatim>\<open>xs[i]\<close> on a list or a one-dimensional array: a negative index counts from the
  end, an index outside \<open>[-len, len)\<close> raises \<^verbatim>\<open>IndexError\<close>.
\<close>

definition py_index :: "'a list \<Rightarrow> int \<Rightarrow> error + 'a" where
  "py_index xs i =
     (if 0 \<le> i \<and> i < int (length xs) then Inr (xs ! nat i)
      else if - int (length xs) \<le> i \<and> i < 0 then Inr (xs ! nat (int (length xs) + i))
      else Inl IndexError)"

text \<open>
  \<^verbatim>\<open>np.searchsorted(a, v, 'left')\<close> is a binary search: it halves the interval
  \<open>[lo, hi)\<close>, moving \<open>lo\<close> past every probe smaller than \<open>v\<close>. On a sorted array the
  result is the leftmost \<open>i\<close> with \<open>v \<le> a[i]\<close>, and \<open>len(a)\<close> when there is none.
\<close>

function bsearch_left :: "int list \<Rightarrow> int \<Rightarrow> nat \<Rightarrow> nat \<Rightarrow> nat" where
  "bsearch_left a v lo hi =
     (if lo < hi then
        (let mid = lo + (hi - lo) div 2
         in if a ! mid < v then bsearch_left a v (mid + 1) hi
            else bsearch_left a v lo mid)
      else lo)"
  by pat_completeness auto
termination
  by (relation "measure (\<lambda>(a, v, lo, hi). hi - lo)") auto

definition searchsorted_left :: "int list \<Rightarrow> int \<Rightarrow> nat" where
  "searchsorted_left a v = bsearch_left a v 0 (length a)"

text \<open>The numbers that an array of C longs holds.\<close>

definition np_ints :: "'w::len word list \<Rightarrow> int list" where
  "np_ints a = map sint a"

text \<open>
  \<^verbatim>\<open>np.cumsum\<close> of a list of Python integers: the running sums, in an array of C
  longs.
\<close>

fun cumsum_from :: "'w::len word \<Rightarrow> 'w word list \<Rightarrow> 'w word list" where
  "cumsum_from acc [] = []"
| "cumsum_from acc (x # xs) = (acc + x) # cumsum_from (acc + x) xs"

definition np_cumsum :: "int list \<Rightarrow> 'w::len word list" where
  "np_cumsum xs = cumsum_from 0 (map word_of_int xs)"

text \<open>
  \<^verbatim>\<open>random.randint(a, b)\<close> raises \<^verbatim>\<open>ValueError\<close> on an empty range. The drawn number
  is the extra argument \<open>t\<close>; the draws that can happen are those with \<open>a \<le> t \<le> b\<close>.
\<close>

definition randint :: "int \<Rightarrow> int \<Rightarrow> int \<Rightarrow> error + int" where
  "randint a b t = (if a \<le> b then Inr t else Inl ValueError)"

text \<open>
  \<^verbatim>\<open>acc += vals\<close> on a one-dimensional array \<open>acc\<close>: the operand is broadcast to the
  shape of \<open>acc\<close>, so it must have the same length or length one; any other length
  raises \<^verbatim>\<open>ValueError\<close>. The element type is left open: nothing below uses a law of
  addition, so the statements hold for floating-point addition as they stand.
\<close>

definition np_iadd :: "('a::{plus,zero}) list \<Rightarrow> 'a list \<Rightarrow> error + 'a list" where
  "np_iadd acc vals =
     (if length vals = length acc then Inr (map2 (+) acc vals)
      else if length vals = 1 then Inr (map (\<lambda>a. a + hd vals) acc)
      else Inl ValueError)"

definition np_zeros :: "nat \<Rightarrow> ('a::{plus,zero}) list" where
  "np_zeros n = replicate n 0"

fun type_of_val :: "val \<Rightarrow> pytype" where
  "type_of_val (IntV _) = TInt"
| "type_of_val (StrV _) = TStr"

subsection \<open>Construction, reset and population\<close>

definition init_model :: "'w::len word model" where
  "init_model = \<lparr>data = [], groupMaps = [], revGroupMaps = [], groupColNames = [],
     groupColTypes = [], cumSums = [], obCount = 0, keylist = [], filterkeys = []\<rparr>"

definition IsEmpty :: "'w::len word model \<Rightarrow> bool" where
  "IsEmpty s = (data s = [])"

definition DeleteModel :: "'w::len word model \<Rightarrow> 'w word model" where
  "DeleteModel s = s\<lparr>data := [], groupMaps := [], cumSums := [], obCount := 0\<rparr>"

text \<open>
  The two loops over the database rows: every image key starts at zero, then each row
  of per-image counts overwrites the entry of its key and is added to \<open>obCount\<close>.
\<close>

definition zero_counts :: "imkey list \<Rightarrow> 'w::len word model \<Rightarrow> 'w word model" where
  "zero_counts imKeys s = fold (\<lambda>key s. s\<lparr>data := AList.update key 0 (data s)\<rparr>) imKeys s"

definition add_counts :: "(imkey \<times> int) list \<Rightarrow> 'w::len word model \<Rightarrow> 'w word model" where
  "add_counts res s =
     fold (\<lambda>(key, n) s. s\<lparr>data := AList.update key n (data s), obCount := obCount s + n\<rparr>)
       res s"

text \<open>
  \<^verbatim>\<open>for i, imKey in enumerate(self.keylist):
      self.cumSums[i+1] = self.cumSums[i] + self.data[imKey]\<close>
  The right-hand side is read first, then the element is stored; a read or a store
  outside the array raises \<^verbatim>\<open>IndexError\<close>. The sum of the array element and the
  count is a C long again: it wraps around.
\<close>

fun cumsum_loop :: "(nat \<times> imkey) list \<Rightarrow> 'w::len word model \<Rightarrow> (error + unit) \<times> 'w word model" where
  "cumsum_loop [] s = (Inr (), s)"
| "cumsum_loop ((i, imKey) # rest) s =
     (case py_index (cumSums s) (int i) of
        Inl e \<Rightarrow> (Inl e, s)
      | Inr c \<Rightarrow>
          (case dict_get (data s) imKey of
             Inl e \<Rightarrow> (Inl e, s)
           | Inr n \<Rightarrow>
               if i + 1 < length (cumSums s)
               then cumsum_loop rest (s\<lparr>cumSums := (cumSums s)[i + 1 := c + word_of_int n]\<rparr>)
               else (Inl IndexError, s)))"

text \<open>
  \<^verbatim>\<open>for group in self.groupMaps:
      self.groupColTypes[group] = [type(col) for col in self.groupMaps[group].items()[0][1]]\<close>
  The first item of an empty group map does not exist: \<^verbatim>\<open>IndexError\<close>.
\<close>

fun coltypes_loop :: "string list \<Rightarrow> 'w::len word model \<Rightarrow> (error + unit) \<times> 'w word model" where
  "coltypes_loop [] s = (Inr (), s)"
| "coltypes_loop (grp # rest) s =
     (case dict_get (groupMaps s) grp of
        Inl e \<Rightarrow> (Inl e, s)
      | Inr gm \<Rightarrow>
          (case py_index gm 0 of
             Inl e \<Rightarrow> (Inl e, s)
           | Inr item \<Rightarrow>
               coltypes_loop rest
                 (s\<lparr>groupColTypes :=
                      AList.update grp (map type_of_val (snd item)) (groupColTypes s)\<rparr>)))"

text \<open>
  The body of \<^verbatim>\<open>PopulateModel\<close> after its guards, in its three parts: the counts
  with the key list and the zeroed array, the loop that fills the cumulative sums, and
  the group maps with their column types. \<^verbatim>\<open>db.CheckTables()\<close> is a call into the
  database layer that touches no attribute of the model and is left out.
\<close>

definition populate_counts :: "dbconnect \<Rightarrow> 'w::len word model \<Rightarrow> 'w word model" where
  "populate_counts db s0 =
     (let s1 = zero_counts (db_GetAllImageKeys db) s0;
          s2 = add_counts (db_GetPerImageObjectCounts db) s1;
          s3 = s2\<lparr>keylist := map fst (data s2)\<rparr>
      in s3\<lparr>cumSums := replicate (length (data s3) + 1) 0\<rparr>)"

definition populate_groups :: "dbconnect \<Rightarrow> 'w::len word model \<Rightarrow> (error + unit) \<times> 'w word model" where
  "populate_groups db s5 =
     (let s6 = s5\<lparr>groupMaps := fst (db_GetGroupMaps db),
                 groupColNames := snd (db_GetGroupMaps db)\<rparr>;
          s7 = s6\<lparr>revGroupMaps := fst (db_GetGroupMaps_reverse db)\<rparr>
      in coltypes_loop (map fst (groupMaps s7)) s7)"

definition populate :: "dbconnect \<Rightarrow> 'w::len word model \<Rightarrow> (error + unit) \<times> 'w word model" where
  "populate db s0 =
     (case cumsum_loop (enumerate 0 (keylist (populate_counts db s0))) (populate_counts db s0) of
        (Inl e, s5) \<Rightarrow> (Inl e, s5)
      | (Inr _, s5) \<Rightarrow> populate_groups db s5)"

text \<open>
  \<^verbatim>\<open>PopulateModel(delete_model)\<close>: reset first when asked to, return at once when the
  model already holds data, log and return when there is no database.
\<close>

definition PopulateModel :: "dbconnect option \<Rightarrow> bool \<Rightarrow> 'w::len word model \<Rightarrow> (error + unit) \<times> 'w word model" where
  "PopulateModel dbo delete_model s =
     (if delete_model then
        (case dbo of None \<Rightarrow> (Inr (), DeleteModel s)
         | Some db \<Rightarrow> populate db (DeleteModel s))
      else if \<not> IsEmpty s then (Inr (), s)
      else
        (case dbo of None \<Rightarrow> (Inr (), s)
         | Some db \<Rightarrow> populate db s))"

text \<open>
  \<^verbatim>\<open>_if_empty_populate\<close> tests \<^verbatim>\<open>self.IsEmpty\<close>, the bound method itself, which is
  always true: \<^verbatim>\<open>PopulateModel()\<close> is called every time and its own guard decides.
\<close>

definition if_empty_populate :: "dbconnect option \<Rightarrow> 'w::len word model \<Rightarrow> (error + unit) \<times> 'w word model" where
  "if_empty_populate dbo s = PopulateModel dbo False s"

subsection \<open>Random objects\<close>

text \<open>
  \<^verbatim>\<open>while a[i] == a[i-1]: i -= 1\<close>, with the array reads of NumPy: the loop ends at
  the first index whose left neighbour differs, or with \<^verbatim>\<open>IndexError\<close> once an index
  leaves the array.
\<close>

function skip_repeated :: "int list \<Rightarrow> int \<Rightarrow> error + int" where
  "skip_repeated a i =
     (if - int (length a) \<le> i - 1 \<and> i < int (length a) then
        (case py_index a i of
           Inl e \<Rightarrow> Inl e
         | Inr x \<Rightarrow>
             (case py_index a (i - 1) of
                Inl e \<Rightarrow> Inl e
              | Inr y \<Rightarrow> if x = y then skip_repeated a (i - 1) else Inr i))
      else Inl IndexError)"
  by pat_completeness auto
termination
  by (relation "measure (\<lambda>(a, i). nat (i + int (length a)))") auto

text \<open>
  The index computation of \<^verbatim>\<open>GetRandomObject\<close> for the drawn number \<open>obIdx\<close>: the
  image index found in \<open>cumSums\<close>, the image key at that position of
  \<^verbatim>\<open>self.data.keys()\<close>, and the object number relative to that image. The
  difference \<^verbatim>\<open>obIdx - self.cumSums[imIdx-1]\<close> has an array element as operand and is
  a C long.
\<close>

definition GetRandomObject_index :: "'w::len word model \<Rightarrow> int \<Rightarrow> error + (int \<times> imkey \<times> int)" where
  "GetRandomObject_index s obIdx =
     (case skip_repeated (np_ints (cumSums s))
             (int (searchsorted_left (np_ints (cumSums s)) obIdx)) of
        Inl e \<Rightarrow> Inl e
      | Inr imIdx \<Rightarrow>
          (case py_index (map fst (data s)) (imIdx - 1) of
             Inl e \<Rightarrow> Inl e
           | Inr imKey \<Rightarrow>
               (case py_index (cumSums s) (imIdx - 1) of
                  Inl e \<Rightarrow> Inl e
                | Inr c \<Rightarrow> Inr (imIdx, imKey, sint (word_of_int obIdx - c)))))"

definition GetRandomObject :: "dbconnect option \<Rightarrow> 'w::len word model \<Rightarrow> int \<Rightarrow> (error + imkey) \<times> 'w word model" where
  "GetRandomObject dbo s t =
     (case if_empty_populate dbo s of
        (Inl e, s') \<Rightarrow> (Inl e, s')
      | (Inr _, s') \<Rightarrow>
          (case randint 1 (obCount s') t of
             Inl e \<Rightarrow> (Inl e, s')
           | Inr obIdx \<Rightarrow>
               (case GetRandomObject_index s' obIdx of
                  Inl e \<Rightarrow> (Inl e, s')
                | Inr (imIdx, imKey, obIdx') \<Rightarrow>
                    (case dbo of
                       None \<Rightarrow> (Inl AttributeError, s')
                     | Some db \<Rightarrow> (Inr (db_GetObjectIDAtIndex db imKey obIdx'), s')))))"

text \<open>\<^verbatim>\<open>[self.GetRandomObject() for i in xrange(N)]\<close>; \<open>rnd i\<close> is the number drawn in round \<open>i\<close>.\<close>

fun random_objects ::
  "dbconnect option \<Rightarrow> (nat \<Rightarrow> int) \<Rightarrow> nat list \<Rightarrow> 'w::len word model \<Rightarrow> (error + imkey list) \<times> 'w word model" where
  "random_objects dbo rnd [] s = (Inr [], s)"
| "random_objects dbo rnd (i # rest) s =
     (case GetRandomObject dbo s (rnd i) of
        (Inl e, s') \<Rightarrow> (Inl e, s')
      | (Inr obKey, s') \<Rightarrow>
          (case random_objects dbo rnd rest s' of
             (Inl e, s'') \<Rightarrow> (Inl e, s'')
           | (Inr obs, s'') \<Rightarrow> (Inr (obKey # obs), s'')))"

text \<open>\<^verbatim>\<open>[self.data[imKey] for imKey in imKeys]\<close>\<close>

fun counts_of :: "(imkey \<times> int) list \<Rightarrow> imkey list \<Rightarrow> error + int list" where
  "counts_of d [] = Inr []"
| "counts_of d (imKey # rest) =
     (case dict_get d imKey of
        Inl e \<Rightarrow> Inl e
      | Inr n \<Rightarrow> (case counts_of d rest of Inl e \<Rightarrow> Inl e | Inr ns \<Rightarrow> Inr (n # ns)))"

text \<open>One round of the loop of \<^verbatim>\<open>GetRandomObjects\<close> over a list of image keys.\<close>

definition subset_draw ::
  "dbconnect option \<Rightarrow> imkey list \<Rightarrow> 'w::len word list \<Rightarrow> int \<Rightarrow> error + imkey" where
  "subset_draw dbo imKeys sums t =
     (case py_index sums (- 1) of
        Inl e \<Rightarrow> Inl e
      | Inr tot \<Rightarrow>
          (case randint 1 (sint tot) t of
             Inl e \<Rightarrow> Inl e
           | Inr obIdx \<Rightarrow>
               (case (let index = int (searchsorted_left (np_ints sums) obIdx)
                      in if index \<noteq> 0 then
                           (case skip_repeated (np_ints sums) index of
                              Inl e \<Rightarrow> Inl e
                            | Inr index' \<Rightarrow>
                                (case py_index sums (index' - 1) of
                                   Inl e \<Rightarrow> Inl e
                                 | Inr c \<Rightarrow> Inr (index', sint (word_of_int obIdx - c))))
                         else Inr (index, obIdx)) of
                  Inl e \<Rightarrow> Inl e
                | Inr (index, obIdx') \<Rightarrow>
                    (case dbo of
                       None \<Rightarrow> Inl AttributeError
                     | Some db \<Rightarrow>
                         (case py_index imKeys index of
                            Inl e \<Rightarrow> Inl e
                          | Inr imKey \<Rightarrow> Inr (db_GetObjectIDAtIndex db imKey obIdx'))))))"

fun subset_loop ::
  "dbconnect option \<Rightarrow> imkey list \<Rightarrow> 'w::len word list \<Rightarrow> (nat \<Rightarrow> int) \<Rightarrow> nat list
     \<Rightarrow> error + imkey list" where
  "subset_loop dbo imKeys sums rnd [] = Inr []"
| "subset_loop dbo imKeys sums rnd (i # rest) =
     (case subset_draw dbo imKeys sums (rnd i) of
        Inl e \<Rightarrow> Inl e
      | Inr obKey \<Rightarrow>
          (case subset_loop dbo imKeys sums rnd rest of
             Inl e \<Rightarrow> Inl e
           | Inr obs \<Rightarrow> Inr (obKey # obs)))"

text \<open>
  \<^verbatim>\<open>GetRandomObjects(N, imKeys)\<close>; \<^verbatim>\<open>imKeys=None\<close> is \<open>None\<close>, and \<^verbatim>\<open>xrange(N)\<close> is
  empty for a negative \<open>N\<close>.
\<close>

definition GetRandomObjects ::
  "dbconnect option \<Rightarrow> 'w::len word model \<Rightarrow> (nat \<Rightarrow> int) \<Rightarrow> int \<Rightarrow> imkey list option
     \<Rightarrow> (error + imkey list) \<times> 'w word model" where
  "GetRandomObjects dbo s rnd N imKeys =
     (case if_empty_populate dbo s of
        (Inl e, s') \<Rightarrow> (Inl e, s')
      | (Inr _, s') \<Rightarrow>
          (case imKeys of
             None \<Rightarrow> random_objects dbo rnd [0..<nat N] s'
           | Some ks \<Rightarrow>
               if ks = [] then (Inr [], s')
               else
                 (case counts_of (data s') ks of
                    Inl e \<Rightarrow> (Inl e, s')
                  | Inr ns \<Rightarrow>
                      (let sums = (np_cumsum ns :: 'w word list)
                       in case py_index sums (- 1) of
                            Inl e \<Rightarrow> (Inl e, s')
                          | Inr tot \<Rightarrow>
                              if sint tot < 1 then (Inr [], s')
                              else (subset_loop dbo ks sums rnd [0..<nat N], s')))))"

subsection \<open>Groups\<close>

text \<open>\<^verbatim>\<open>self.groupMaps[group][imKey]\<close>\<close>

definition group_of :: "'w::len word model \<Rightarrow> string \<Rightarrow> imkey \<Rightarrow> error + gkey" where
  "group_of s grp imKey =
     (case dict_get (groupMaps s) grp of Inl e \<Rightarrow> Inl e | Inr gm \<Rightarrow> dict_get gm imKey)"

text \<open>
  \<^verbatim>\<open>for imKey in imdata.keys():
      groupData[self.groupMaps[group][imKey]] = np.zeros(nvals)\<close>
\<close>

fun zeros_loop ::
  "'w::len word model \<Rightarrow> string \<Rightarrow> nat \<Rightarrow> imkey list \<Rightarrow> (gkey \<times> ('a::{plus,zero}) list) list
     \<Rightarrow> error + (gkey \<times> 'a list) list" where
  "zeros_loop s grp nvals [] groupData = Inr groupData"
| "zeros_loop s grp nvals (imKey # rest) groupData =
     (case group_of s grp imKey of
        Inl e \<Rightarrow> Inl e
      | Inr gk \<Rightarrow> zeros_loop s grp nvals rest (AList.update gk (np_zeros nvals) groupData))"

text \<open>
  \<^verbatim>\<open>for imKey, vals in imdata.items():
      groupData[self.groupMaps[group][imKey]] += vals\<close>
\<close>

fun sum_loop ::
  "'w::len word model \<Rightarrow> string \<Rightarrow> (imkey \<times> ('a::{plus,zero}) list) list \<Rightarrow> (gkey \<times> 'a list) list
     \<Rightarrow> error + (gkey \<times> 'a list) list" where
  "sum_loop s grp [] groupData = Inr groupData"
| "sum_loop s grp ((imKey, vals) # rest) groupData =
     (case group_of s grp imKey of
        Inl e \<Rightarrow> Inl e
      | Inr gk \<Rightarrow>
          (case dict_get groupData gk of
             Inl e \<Rightarrow> Inl e
           | Inr acc \<Rightarrow>
               (case np_iadd acc vals of
                  Inl e \<Rightarrow> Inl e
                | Inr acc' \<Rightarrow> sum_loop s grp rest (AList.update gk acc' groupData))))"

definition SumToGroup ::
  "dbconnect option \<Rightarrow> 'w::len word model \<Rightarrow> (imkey \<times> ('a::{plus,zero}) list) list \<Rightarrow> string
     \<Rightarrow> (error + (gkey \<times> 'a list) list) \<times> 'w word model" where
  "SumToGroup dbo s imdata grp =
     (case if_empty_populate dbo s of
        (Inl e, s') \<Rightarrow> (Inl e, s')
      | (Inr _, s') \<Rightarrow>
          (case py_index (map snd imdata) 0 of
             Inl e \<Rightarrow> (Inl e, s')
           | Inr v0 \<Rightarrow>
               (case zeros_loop s' grp (length v0) (map fst imdata) [] of
                  Inl e \<Rightarrow> (Inl e, s')
                | Inr groupData \<Rightarrow> (sum_loop s' grp imdata groupData, s'))))"

text \<open>
  \<^verbatim>\<open>if filter not in self.filterkeys.keys():
      self.filterkeys[filter] = set(db.execute(p._filters[filter]))\<close>
\<close>

definition cache_filter ::
  "dbconnect option \<Rightarrow> properties \<Rightarrow> 'w::len word model \<Rightarrow> string \<Rightarrow> (error + unit) \<times> 'w word model" where
  "cache_filter dbo p s flt =
     (if flt \<notin> set (map fst (filterkeys s)) then
        (case dbo of
           None \<Rightarrow> (Inl AttributeError, s)
         | Some db \<Rightarrow>
             (case dict_get (p_filters p) flt of
                Inl e \<Rightarrow> (Inl e, s)
              | Inr query \<Rightarrow>
                  (Inr (), s\<lparr>filterkeys :=
                              AList.update flt (set (db_execute db query)) (filterkeys s)\<rparr>)))
      else (Inr (), s))"

text \<open>
  \<^verbatim>\<open>GetImagesInGroup(group, groupKey, filter)\<close>. The \<^verbatim>\<open>try\<close> block holds both
  subscripts of \<^verbatim>\<open>self.revGroupMaps[group][groupKey]\<close>, and \<^verbatim>\<open>except KeyError\<close>
  returns the empty list.
\<close>

definition GetImagesInGroup ::
  "dbconnect option \<Rightarrow> properties \<Rightarrow> 'w::len word model \<Rightarrow> string \<Rightarrow> gkey \<Rightarrow> string option
     \<Rightarrow> (error + keys_result) \<times> 'w word model" where
  "GetImagesInGroup dbo p s grp groupKey flt =
     (case if_empty_populate dbo s of
        (Inl e, s') \<Rightarrow> (Inl e, s')
      | (Inr _, s') \<Rightarrow>
          (case (case dict_get (revGroupMaps s') grp of
                   Inl e \<Rightarrow> Inl e
                 | Inr rm \<Rightarrow> dict_get rm groupKey) of
             Inl e \<Rightarrow> if e = KeyError then (Inr (KeyList []), s') else (Inl e, s')
           | Inr imkeys \<Rightarrow>
               (case flt of
                  None \<Rightarrow> (Inr (KeyList imkeys), s')
                | Some f \<Rightarrow>
                    (case cache_filter dbo p s' f of
                       (Inl e, s'') \<Rightarrow> (Inl e, s'')
                     | (Inr _, s'') \<Rightarrow>
                         (case dict_get (filterkeys s'') f of
                            Inl e \<Rightarrow> (Inl e, s'')
                          | Inr fk \<Rightarrow> (Inr (KeySet (set imkeys \<inter> fk)), s''))))))"

text \<open>
  \<^verbatim>\<open>matches(key1, key2)\<close>: \<^verbatim>\<open>zip\<close> pairs the components up to the shorter key.
\<close>

definition matches :: "gkey \<Rightarrow> gkey \<Rightarrow> bool" where
  "matches key1 key2 = list_all (\<lambda>(a, b). a = b \<or> b = StrV ''__ANY__'') (zip key1 key2)"

definition GetImagesInGroupWithWildcards ::
  "dbconnect option \<Rightarrow> properties \<Rightarrow> 'w::len word model \<Rightarrow> string \<Rightarrow> gkey \<Rightarrow> string option
     \<Rightarrow> (error + keys_result) \<times> 'w word model" where
  "GetImagesInGroupWithWildcards dbo p s grp groupKey flt =
     (case if_empty_populate dbo s of
        (Inl e, s') \<Rightarrow> (Inl e, s')
      | (Inr _, s') \<Rightarrow>
          if StrV ''__ANY__'' \<in> set groupKey then
            (case dict_get (revGroupMaps s') grp of
               Inl e \<Rightarrow> (Inl e, s')
             | Inr rm \<Rightarrow>
                 (Inr (KeyList
                    (fold (\<lambda>(gkey, ikeys) imkeys.
                        if matches gkey groupKey then imkeys @ ikeys else imkeys) rm [])), s'))
          else GetImagesInGroup dbo p s' grp groupKey flt)"

subsection \<open>A small database\<close>

text \<open>
  Three images \<open>e1\<close>, \<open>e2\<close>, \<open>e3\<close> with 2, 0 and 3 objects, grouped by well.
\<close>

definition e1 :: imkey where "e1 = [0, 1]"
definition e2 :: imkey where "e2 = [0, 2]"
definition e3 :: imkey where "e3 = [0, 3]"

definition well_map :: "(imkey \<times> gkey) list" where
  "well_map = [(e1, [IntV 0, StrV ''A01'']), (e2, [IntV 0, StrV ''A02'']),
               (e3, [IntV 1, StrV ''A01''])]"

definition plate_map :: "(imkey \<times> gkey) list" where
  "plate_map = [(e1, [IntV 0]), (e2, [IntV 0]), (e3, [IntV 1])]"

definition well_rev :: "(gkey \<times> imkey list) list" where
  "well_rev = [([IntV 0, StrV ''A01''], [e1]), ([IntV 0, StrV ''A02''], [e2]),
               ([IntV 1, StrV ''A01''], [e3])]"

definition plate_rev :: "(gkey \<times> imkey list) list" where
  "plate_rev = [([IntV 0], [e1, e2]), ([IntV 1], [e3])]"

definition ex_db :: dbconnect where
  "ex_db = \<lparr>
     db_GetAllImageKeys = [e1, e2, e3],
     db_GetPerImageObjectCounts = [(e1, 2), (e3, 3)],
     db_GetObjectIDAtIndex = (\<lambda>imKey i. imKey @ [i]),
     db_GetGroupMaps =
       ([(''Well'', well_map), (''Plate'', plate_map)],
        [(''Well'', [''plate'', ''well'']), (''Plate'', [''plate''])]),
     db_GetGroupMaps_reverse =
       ([(''Well'', well_rev), (''Plate'', plate_rev)],
        [(''Well'', [''plate'', ''well'']), (''Plate'', [''plate''])]),
     db_execute = (\<lambda>query. if query = ''SELECT 1'' then [e1, e2] else [])\<rparr>"

definition ex_p :: properties where
  "ex_p = \<lparr>p_filters = [(''first'', ''SELECT 1'')]\<rparr>"

text \<open>The model that \<^verbatim>\<open>PopulateModel\<close> builds from this database.\<close>

definition ex_model :: "64 word model" where
  "ex_model = \<lparr>
     data = [(e1, 2), (e2, 0), (e3, 3)],
     groupMaps = [(''Well'', well_map), (''Plate'', plate_map)],
     revGroupMaps = [(''Well'', well_rev), (''Plate'', plate_rev)],
     groupColNames = [(''Well'', [''plate'', ''well'']), (''Plate'', [''plate''])],
     groupColTypes = [(''Well'', [TInt, TStr]), (''Plate'', [TInt])],
     cumSums = [0, 2, 2, 5],
     obCount = 5,
     keylist = [e1, e2, e3],
     filterkeys = []\<rparr>"

text \<open>The model after one filtered query, which fills the filter cache.\<close>

definition ex_filtered :: "64 word model" where
  "ex_filtered =
     snd (GetImagesInGroup (Some ex_db) ex_p ex_model ''Well'' [IntV 0, StrV ''A01'']
            (Some ''first''))"

text \<open>The same database with counts whose total does not fit a C long of 64 bits.\<close>

definition big_db :: dbconnect where
  "big_db = ex_db\<lparr>db_GetPerImageObjectCounts := [(e1, 2 ^ 62), (e3, 2 ^ 62)]\<rparr>"

subsection \<open>Reference notions\<close>




text \<open>The elementwise sum of vectors of width \<open>n\<close>, added one after the other to zeros.\<close>

definition vector_sum :: "nat \<Rightarrow> ('a::{plus,zero}) list list \<Rightarrow> 'a list" where
  "vector_sum n vs = foldl (\<lambda>acc v. map2 (+) acc v) (replicate n 0) vs"

section \<open>Properties\<close>

subsection \<open>The small database\<close>


lemma ex_model_not_empty: "\<not> IsEmpty ex_model"
  by (simp add: IsEmpty_def ex_model_def)

lemma ex_filtered_eq: "ex_filtered = ex_model\<lparr>filterkeys := [(''first'', {e1, e2})]\<rparr>"
  unfolding ex_filtered_def by code_simp

subsection \<open>Population and reset\<close>

lemma if_empty_populate_nonempty:
  "\<not> IsEmpty s \<Longrightarrow> if_empty_populate dbo s = (Inr (), s)"
  by (simp add: if_empty_populate_def PopulateModel_def)

text \<open>
  Claim C9. \<^verbatim>\<open>PopulateModel()\<close> without \<^verbatim>\<open>delete_model\<close> on a model that already
  holds data returns at once: it raises nothing and every attribute of the model is
  what it was, whatever the database would answer.
\<close>

theorem PopulateModel_again_noop:
  assumes "\<not> IsEmpty s"
  shows "PopulateModel dbo False s = (Inr (), s)"
  using assms by (simp add: PopulateModel_def)

theorem PopulateModel_again_noop_witness:
  "\<not> IsEmpty ex_model \<and> PopulateModel (Some ex_db) False ex_model = (Inr (), ex_model)"
  using PopulateModel_again_noop [of ex_model "Some ex_db"] ex_model_not_empty by simp

text \<open>
  Claim C3. \<^verbatim>\<open>DeleteModel\<close> empties \<open>data\<close>, \<open>groupMaps\<close>, \<open>cumSums\<close> and \<open>obCount\<close>
  only. On the populated model with one cached filter, the reverse group maps, the key
  list, the column names, the column types and the filter cache are all still there
  after the reset, so the model is not back at its initial value.
\<close>

theorem DeleteModel_leaves_state:
  "revGroupMaps (DeleteModel ex_filtered) = [(''Well'', well_rev), (''Plate'', plate_rev)]
   \<and> keylist (DeleteModel ex_filtered) = [e1, e2, e3]
   \<and> groupColNames (DeleteModel ex_filtered)
       = [(''Well'', [''plate'', ''well'']), (''Plate'', [''plate''])]
   \<and> groupColTypes (DeleteModel ex_filtered) = [(''Well'', [TInt, TStr]), (''Plate'', [TInt])]
   \<and> filterkeys (DeleteModel ex_filtered) = [(''first'', {e1, e2})]
   \<and> data (DeleteModel ex_filtered) = [] \<and> groupMaps (DeleteModel ex_filtered) = []
   \<and> cumSums (DeleteModel ex_filtered) = [] \<and> obCount (DeleteModel ex_filtered) = 0
   \<and> DeleteModel ex_filtered \<noteq> init_model"
  by (simp add: ex_filtered_eq DeleteModel_def ex_model_def init_model_def)

subsection \<open>Reverse lookup\<close>

text \<open>
  With a known dimension and a group key that its reverse map does not have,
  \<^verbatim>\<open>GetImagesInGroup\<close> returns the empty list.
\<close>

lemma GetImagesInGroup_unknown_key_empty:
  assumes "\<not> IsEmpty s" and "map_of (revGroupMaps s) grp = Some rm"
    and "map_of rm groupKey = None"
  shows "GetImagesInGroup dbo p s grp groupKey flt = (Inr (KeyList []), s)"
  using assms by (simp add: GetImagesInGroup_def if_empty_populate_nonempty dict_get_def)

text \<open>
  Claim C4. A dimension name that is itself absent ought to be an error, as it is on
  every other lookup of a dimension; in \<^verbatim>\<open>GetImagesInGroup\<close> the \<^verbatim>\<open>try\<close> block holds
  both subscripts, so the \<^verbatim>\<open>KeyError\<close> of the absent dimension is swallowed as well.
  On the populated model, which has no dimension \<open>Gene\<close>, the lookup returns the empty
  list, while the wildcard branch of \<^verbatim>\<open>GetImagesInGroupWithWildcards\<close> raises
  \<^verbatim>\<open>KeyError\<close> for the same dimension.
\<close>

theorem GetImagesInGroup_unknown_dimension_empty:
  "map_of (revGroupMaps ex_model) ''Gene'' = None
   \<and> GetImagesInGroup (Some ex_db) ex_p ex_model ''Gene'' [IntV 0] None
       = (Inr (KeyList []), ex_model)
   \<and> GetImagesInGroupWithWildcards (Some ex_db) ex_p ex_model ''Gene'' [StrV ''__ANY__''] None
       = (Inl KeyError, ex_model)"
  by (simp add: GetImagesInGroup_def GetImagesInGroupWithWildcards_def
        if_empty_populate_nonempty ex_model_not_empty dict_get_def)
     (simp add: ex_model_def)

subsection \<open>Population leaves the filter cache alone\<close>

lemma zero_counts_filterkeys: "filterkeys (zero_counts ks s) = filterkeys s"
  unfolding zero_counts_def by (induction ks arbitrary: s) auto

lemma add_counts_filterkeys: "filterkeys (add_counts res s) = filterkeys s"
  unfolding add_counts_def by (induction res arbitrary: s) auto

lemma cumsum_loop_filterkeys: "filterkeys (snd (cumsum_loop xs s)) = filterkeys s"
  by (induction xs s rule: cumsum_loop.induct) (auto split: sum.splits if_splits)

lemma coltypes_loop_filterkeys: "filterkeys (snd (coltypes_loop gs s)) = filterkeys s"
  by (induction gs s rule: coltypes_loop.induct) (auto split: sum.splits)

lemma populate_counts_filterkeys: "filterkeys (populate_counts db s) = filterkeys s"
  by (simp add: populate_counts_def Let_def add_counts_filterkeys zero_counts_filterkeys)

lemma populate_groups_filterkeys: "filterkeys (snd (populate_groups db s)) = filterkeys s"
  by (simp add: populate_groups_def Let_def coltypes_loop_filterkeys)

lemma populate_filterkeys: "filterkeys (snd (populate db s)) = filterkeys s"
proof -
  obtain r s5 where c:
    "cumsum_loop (enumerate 0 (keylist (populate_counts db s))) (populate_counts db s) = (r, s5)"
    by (cases "cumsum_loop (enumerate 0 (keylist (populate_counts db s))) (populate_counts db s)")
  have f5: "filterkeys s5 = filterkeys s"
    using cumsum_loop_filterkeys
            [of "enumerate 0 (keylist (populate_counts db s))" "populate_counts db s"] c
    by (simp add: populate_counts_filterkeys)
  show ?thesis
    using c f5 by (cases r) (simp_all add: populate_def populate_groups_filterkeys)
qed

lemma PopulateModel_filterkeys: "filterkeys (snd (PopulateModel dbo del s)) = filterkeys s"
  by (cases dbo) (simp_all add: PopulateModel_def populate_filterkeys DeleteModel_def)

lemma populate_counts_ignores_execute:
  "populate_counts (db\<lparr>db_execute := ex\<rparr>) s = populate_counts db s"
  by (simp add: populate_counts_def)

lemma populate_groups_ignores_execute:
  "populate_groups (db\<lparr>db_execute := ex\<rparr>) s = populate_groups db s"
  by (simp add: populate_groups_def)

lemma populate_ignores_execute: "populate (db\<lparr>db_execute := ex\<rparr>) s = populate db s"
  by (simp add: populate_def populate_counts_ignores_execute populate_groups_ignores_execute
        split: prod.splits sum.splits)

lemma PopulateModel_ignores_execute:
  "PopulateModel (map_option (\<lambda>db. db\<lparr>db_execute := ex\<rparr>) dbo) del s = PopulateModel dbo del s"
  by (cases dbo) (simp_all add: PopulateModel_def populate_ignores_execute)

text \<open>
  Claim C10. When the group key holds the wildcard \<^verbatim>\<open>'__ANY__'\<close>,
  \<^verbatim>\<open>GetImagesInGroupWithWildcards\<close> gives the same result and leaves the same model
  for any two filter arguments, \<^verbatim>\<open>None\<close> included, and for any two tables of filter
  queries; the answer does not depend on what \<^verbatim>\<open>db.execute\<close> would return, and the
  filter cache of the model is left as it was.
\<close>

theorem wildcard_lookup_ignores_filter:
  assumes "StrV ''__ANY__'' \<in> set groupKey"
  shows "GetImagesInGroupWithWildcards dbo p s grp groupKey flt
           = GetImagesInGroupWithWildcards dbo p' s grp groupKey flt'
       \<and> GetImagesInGroupWithWildcards dbo p s grp groupKey flt
           = GetImagesInGroupWithWildcards (map_option (\<lambda>db. db\<lparr>db_execute := ex\<rparr>) dbo) p s
               grp groupKey flt
       \<and> filterkeys (snd (GetImagesInGroupWithWildcards dbo p s grp groupKey flt)) = filterkeys s"
proof -
  obtain r s' where pm: "if_empty_populate dbo s = (r, s')"
    by (cases "if_empty_populate dbo s")
  have fk: "filterkeys s' = filterkeys s"
    using PopulateModel_filterkeys [of dbo False s] pm by (simp add: if_empty_populate_def)
  have pm': "if_empty_populate (map_option (\<lambda>db. db\<lparr>db_execute := ex\<rparr>) dbo) s = (r, s')"
    using pm by (simp add: if_empty_populate_def PopulateModel_ignores_execute)
  show ?thesis
    using assms pm pm' fk
    by (cases r) (auto simp: GetImagesInGroupWithWildcards_def split: sum.splits)
qed

theorem wildcard_lookup_ignores_filter_witness:
  "GetImagesInGroupWithWildcards (Some ex_db) ex_p ex_model ''Well'' [StrV ''__ANY__'', StrV ''A01''] None
     = GetImagesInGroupWithWildcards (Some ex_db) \<lparr>p_filters = []\<rparr> ex_model ''Well'' [StrV ''__ANY__'', StrV ''A01''] (Some ''first'')
   \<and> GetImagesInGroupWithWildcards (Some ex_db) ex_p ex_model ''Well'' [StrV ''__ANY__'', StrV ''A01''] None
     = (Inr (KeyList [e1, e3]), ex_model)
   \<and> filterkeys (snd (GetImagesInGroupWithWildcards (Some ex_db) \<lparr>p_filters = []\<rparr> ex_model ''Well'' [StrV ''__ANY__'', StrV ''A01''] (Some ''first''))) = []"
proof -
  have a: "StrV ''__ANY__'' \<in> set [StrV ''__ANY__'', StrV ''A01'']" by simp
  have b: "GetImagesInGroupWithWildcards (Some ex_db) ex_p ex_model ''Well'' [StrV ''__ANY__'', StrV ''A01''] None
     = (Inr (KeyList [e1, e3]), ex_model)"
    by code_simp
  have c: "filterkeys ex_model = []" by (simp add: ex_model_def)
  from wildcard_lookup_ignores_filter [OF a, of "Some ex_db" ex_p ex_model "''Well''" None "\<lparr>p_filters = []\<rparr>" "Some ''first''"]
       wildcard_lookup_ignores_filter [OF a, of "Some ex_db" "\<lparr>p_filters = []\<rparr>" ex_model "''Well''" "Some ''first''"]
       b c
  show ?thesis by simp
qed

subsection \<open>Sampling from a subset without objects\<close>

lemma counts_of_present:
  "set ks \<subseteq> fst ` set d \<Longrightarrow> counts_of d ks = Inr (map (\<lambda>k. the (map_of d k)) ks)"
proof (induction ks)
  case Nil
  then show ?case by simp
next
  case (Cons k ks)
  then obtain v where "map_of d k = Some v"
    by (metis list.set_intros(1) subsetD weak_map_of_SomeI map_of_eq_None_iff not_Some_eq)
  with Cons show ?case by (simp add: dict_get_def)
qed

lemma length_cumsum_from: "length (cumsum_from a xs) = length xs"
  by (induction xs arbitrary: a) auto

lemma cumsum_from_Nil_iff: "cumsum_from a xs = [] \<longleftrightarrow> xs = []"
  by (cases xs) auto

lemma last_cumsum_from: "xs \<noteq> [] \<Longrightarrow> last (cumsum_from a xs) = a + sum_list xs"
proof (induction xs arbitrary: a)
  case Nil
  then show ?case by simp
next
  case (Cons x xs)
  show ?case
  proof (cases "xs = []")
    case True
    then show ?thesis by simp
  next
    case False
    with Cons.IH [of "a + x"] show ?thesis
      by (simp add: cumsum_from_Nil_iff)
  qed
qed

lemma py_index_last: "xs \<noteq> [] \<Longrightarrow> py_index xs (- 1) = Inr (last xs)"
  by (cases xs rule: rev_cases) (auto simp: py_index_def nth_append)

lemma sum_list_word_of_int:
  "sum_list (map word_of_int ns) = (word_of_int (sum_list ns) :: 'w::len word)"
  by (induction ns) auto

text \<open>The last running sum is the total, as a C long.\<close>

lemma np_cumsum_total:
  "ns \<noteq> [] \<Longrightarrow> py_index (np_cumsum ns :: 'w::len word list) (- 1) = Inr (word_of_int (sum_list ns))"
proof -
  assume ne: "ns \<noteq> []"
  then have "(np_cumsum ns :: 'w word list) \<noteq> []"
    by (simp add: np_cumsum_def cumsum_from_Nil_iff)
  then show ?thesis
    using ne
    by (simp add: py_index_last) (simp add: np_cumsum_def last_cumsum_from sum_list_word_of_int)
qed

text \<open>
  Claim C2. On a populated model, \<^verbatim>\<open>GetRandomObjects(N, imKeys)\<close> with a list of keys
  that are all in \<open>data\<close> and whose counts add up to zero, the empty list included,
  returns the empty list for every \<open>N\<close>, raises nothing and leaves the model as it is.
\<close>

theorem GetRandomObjects_zero_subset_empty:
  fixes s :: "'w::len word model"
  assumes "\<not> IsEmpty s"
    and "set imKeys \<subseteq> fst ` set (data s)"
    and "(\<Sum>k\<leftarrow>imKeys. the (map_of (data s) k)) = 0"
  shows "GetRandomObjects dbo s rnd N (Some imKeys) = (Inr [], s)"
proof (cases "imKeys = []")
  case True
  with assms(1) show ?thesis
    by (simp add: GetRandomObjects_def if_empty_populate_nonempty)
next
  case False
  have c: "counts_of (data s) imKeys = Inr (map (\<lambda>k. the (map_of (data s) k)) imKeys)"
    using assms(2) by (rule counts_of_present)
  have "py_index (np_cumsum (map (\<lambda>k. the (map_of (data s) k)) imKeys) :: 'w word list) (- 1)
          = Inr 0"
    using False assms(3) by (simp add: np_cumsum_total)
  with False c assms(1) show ?thesis
    by (simp add: GetRandomObjects_def if_empty_populate_nonempty)
qed

theorem GetRandomObjects_zero_subset_empty_witness:
  "GetRandomObjects (Some ex_db) ex_model (\<lambda>i. 1) 4 (Some [e2, e2]) = (Inr [], ex_model)
   \<and> GetRandomObjects (Some ex_db) ex_model (\<lambda>i. 1) 4 (Some []) = (Inr [], ex_model)"
proof -
  have a: "set [e2, e2] \<subseteq> fst ` set (data ex_model)" by (simp add: ex_model_def)
  have b: "(\<Sum>k\<leftarrow>[e2, e2]. the (map_of (data ex_model) k)) = 0"
    by (simp add: ex_model_def e1_def e2_def e3_def)
  have c: "set [] \<subseteq> fst ` set (data ex_model)" by simp
  have d: "(\<Sum>k\<leftarrow>[]. the (map_of (data ex_model) k)) = 0" by simp
  from GetRandomObjects_zero_subset_empty [OF ex_model_not_empty a b, of "Some ex_db" "\<lambda>i. 1" 4]
       GetRandomObjects_zero_subset_empty [OF ex_model_not_empty c d, of "Some ex_db" "\<lambda>i. 1" 4]
  show ?thesis by simp
qed

subsection \<open>The counts after population\<close>





lemma set_update_subset: "set (AList.update k v d) \<subseteq> insert (k, v) (set d)"
  by (induction d) auto











subsection \<open>The cumulative sums\<close>





















text \<open>
  Past that bound the array wraps around: with two counts of \<open>2 ^ 62\<close> in a C long of
  64 bits the last number in \<open>cumSums\<close> is \<open>- (2 ^ 63)\<close>, while \<open>obCount\<close> is \<open>2 ^ 63\<close>.
\<close>

lemma cumSums_wrap_around:
  "np_ints (cumSums (snd (PopulateModel (Some big_db) True (init_model :: 64 word model))))
     = [0, 2 ^ 62, 2 ^ 62, - (2 ^ 63)]
   \<and> obCount (snd (PopulateModel (Some big_db) True (init_model :: 64 word model))) = 2 ^ 63"
  by code_simp

subsection \<open>Drawing one object\<close>

declare bsearch_left.simps [simp del]
declare skip_repeated.simps [simp del]









subsection \<open>Wildcard lookup\<close>








subsection \<open>Summing image data into groups\<close>

lemma group_of_known:
  "map_of (groupMaps s) grp = Some gm \<Longrightarrow> group_of s grp imKey = dict_get gm imKey"
  by (simp add: group_of_def dict_get_def)

lemma zeros_loop_known:
  fixes s :: "'w::len word model" and gd :: "(gkey \<times> 'a::{plus,zero} list) list"
  assumes "map_of (groupMaps s) grp = Some gm" and "\<forall>k\<in>set ks. map_of gm k \<noteq> None"
  shows "\<exists>gd'. zeros_loop s grp n ks gd = Inr gd'
           \<and> set (map fst gd') = set (map fst gd) \<union> {g. \<exists>k\<in>set ks. map_of gm k = Some g}
           \<and> (distinct (map fst gd) \<longrightarrow> distinct (map fst gd'))
           \<and> (list_all (\<lambda>(g, a). a = np_zeros n) gd \<longrightarrow> list_all (\<lambda>(g, a). a = np_zeros n) gd')"
  using assms(2)
proof (induction ks arbitrary: gd)
  case Nil
  then show ?case by simp
next
  case (Cons k ks)
  from Cons.prems obtain g where g: "map_of gm k = Some g" by auto
  define gd1 where "gd1 = AList.update g (np_zeros n :: 'a list) gd"
  have step: "zeros_loop s grp n (k # ks) gd = zeros_loop s grp n ks gd1"
    by (simp add: group_of_known [OF assms(1)] dict_get_def g gd1_def)
  have k1: "set (map fst gd1) = insert g (set (map fst gd))"
    using dom_update [of g "np_zeros n" gd] by (simp add: gd1_def)
  have d1: "distinct (map fst gd) \<longrightarrow> distinct (map fst gd1)"
    by (simp add: gd1_def distinct_update)
  have z1: "list_all (\<lambda>(g, a). a = np_zeros n) gd \<longrightarrow> list_all (\<lambda>(g, a). a = np_zeros n) gd1"
    using set_update_subset [of g "np_zeros n" gd] by (auto simp: list_all_iff gd1_def)
  from Cons.IH [of gd1] Cons.prems obtain gd' where
    r: "zeros_loop s grp n ks gd1 = Inr gd'"
    and ks: "set (map fst gd') = set (map fst gd1) \<union> {g. \<exists>k\<in>set ks. map_of gm k = Some g}"
    and d: "distinct (map fst gd1) \<longrightarrow> distinct (map fst gd')"
    and z: "list_all (\<lambda>(g, a). a = np_zeros n) gd1 \<longrightarrow> list_all (\<lambda>(g, a). a = np_zeros n) gd'"
    by auto
  have "set (map fst gd')
          = set (map fst gd) \<union> {g'. \<exists>k'\<in>set (k # ks). map_of gm k' = Some g'}"
    unfolding ks k1 using g by auto
  with step r d d1 z z1 show ?case by simp
qed

lemma zeros_loop_unknown:
  assumes "map_of (groupMaps s) grp = Some gm" and "\<exists>k\<in>set ks. map_of gm k = None"
  shows "zeros_loop s grp n ks gd = Inl KeyError"
  using assms(2)
proof (induction ks arbitrary: gd)
  case Nil
  then show ?case by simp
next
  case (Cons k ks)
  show ?case
  proof (cases "map_of gm k")
    case None
    then show ?thesis by (simp add: group_of_known [OF assms(1)] dict_get_def)
  next
    case (Some g)
    with Cons.prems have "\<exists>k\<in>set ks. map_of gm k = None" by auto
    with Cons.IH Some show ?thesis by (simp add: group_of_known [OF assms(1)] dict_get_def)
  qed
qed

text \<open>
  The second loop, for vectors of the width of the sums: every sum that was in
  \<open>groupData\<close> at the start has grown by the vectors of its group, in their order.
\<close>

lemma sum_loop_equal_width:
  assumes gm: "map_of (groupMaps s) grp = Some gm"
    and "\<forall>x\<in>set xs. length (snd x) = n
           \<and> (\<exists>g acc. map_of gm (fst x) = Some g \<and> map_of gd g = Some acc)"
    and "\<forall>g acc. map_of gd g = Some acc \<longrightarrow> length acc = n"
  shows "\<exists>gd'. sum_loop s grp xs gd = Inr gd' \<and> map fst gd' = map fst gd
           \<and> (\<forall>g acc. map_of gd g = Some acc \<longrightarrow>
                 map_of gd' g
                   = Some (foldl (\<lambda>acc v. map2 (+) acc v) acc
                             (map snd (filter (\<lambda>(k, v). map_of gm k = Some g) xs))))"
  using assms(2,3)
proof (induction xs arbitrary: gd)
  case Nil
  then show ?case by simp
next
  case (Cons x xs)
  obtain k v where x: "x = (k, v)" by (cases x)
  from Cons.prems(1) obtain g acc where
    v: "length v = n" and g: "map_of gm k = Some g" and acc: "map_of gd g = Some acc"
    by (auto simp: x)
  have la: "length acc = n" using Cons.prems(2) acc by blast
  define acc' where "acc' = map2 (+) acc v"
  define gd1 where "gd1 = AList.update g acc' gd"
  have step: "sum_loop s grp (x # xs) gd = sum_loop s grp xs gd1"
    by (simp add: x group_of_known [OF gm] dict_get_def g acc np_iadd_def v la acc'_def gd1_def)
  have m1: "map_of gd1 = (map_of gd)(g \<mapsto> acc')"
    by (simp add: gd1_def update_conv')
  have "(g, acc) \<in> set gd" using acc by (rule map_of_SomeD)
  then have "g \<in> set (map fst gd)" by force
  then have k1: "map fst gd1 = map fst gd"
    by (simp add: gd1_def update_keys)
  have p1: "\<forall>x\<in>set xs. length (snd x) = n
              \<and> (\<exists>g acc. map_of gm (fst x) = Some g \<and> map_of gd1 g = Some acc)"
  proof
    fix y assume "y \<in> set xs"
    with Cons.prems(1) obtain g' a' where
      "length (snd y) = n" "map_of gm (fst y) = Some g'" "map_of gd g' = Some a'"
      by fastforce
    then show "length (snd y) = n
                 \<and> (\<exists>g acc. map_of gm (fst y) = Some g \<and> map_of gd1 g = Some acc)"
      by (cases "g' = g") (simp_all add: m1)
  qed
  have p2: "\<forall>g acc. map_of gd1 g = Some acc \<longrightarrow> length acc = n"
    using Cons.prems(2) by (auto simp: m1 acc'_def v la)
  from Cons.IH [OF p1 p2] obtain gd' where
    r: "sum_loop s grp xs gd1 = Inr gd'" and ks: "map fst gd' = map fst gd1"
    and val: "\<forall>g acc. map_of gd1 g = Some acc \<longrightarrow>
                 map_of gd' g
                   = Some (foldl (\<lambda>acc v. map2 (+) acc v) acc
                             (map snd (filter (\<lambda>(k, v). map_of gm k = Some g) xs)))"
    by blast
  have "\<forall>g0 acc0. map_of gd g0 = Some acc0 \<longrightarrow>
          map_of gd' g0
            = Some (foldl (\<lambda>acc v. map2 (+) acc v) acc0
                      (map snd (filter (\<lambda>(k, v). map_of gm k = Some g0) (x # xs))))"
  proof (intro allI impI)
    fix g0 acc0 assume a0: "map_of gd g0 = Some acc0"
    show "map_of gd' g0
            = Some (foldl (\<lambda>acc v. map2 (+) acc v) acc0
                      (map snd (filter (\<lambda>(k, v). map_of gm k = Some g0) (x # xs))))"
    proof (cases "g0 = g")
      case True
      then have "map_of gd1 g0 = Some acc'" by (simp add: m1)
      with val have "map_of gd' g0
          = Some (foldl (\<lambda>acc v. map2 (+) acc v) acc'
                    (map snd (filter (\<lambda>(k, v). map_of gm k = Some g0) xs)))"
        by blast
      with True a0 acc show ?thesis by (simp add: x g acc'_def)
    next
      case False
      then have "map_of gd1 g0 = Some acc0" using a0 by (simp add: m1)
      with val have "map_of gd' g0
          = Some (foldl (\<lambda>acc v. map2 (+) acc v) acc0
                    (map snd (filter (\<lambda>(k, v). map_of gm k = Some g0) xs)))"
        by blast
      with False show ?thesis by (simp add: x g)
    qed
  qed
  with step r ks k1 show ?case by simp
qed

lemma first_vector: "imdata \<noteq> [] \<Longrightarrow> py_index (map snd imdata) 0 = Inr (snd (hd imdata))"
  by (cases imdata) (simp_all add: py_index_def)

text \<open>
  Claim C7, as stated, fails on the empty input map: the width is read from the first
  vector, \<^verbatim>\<open>imdata.values()[0]\<close>, and there is none.
\<close>

theorem SumToGroup_empty_input_raises:
  "SumToGroup (Some ex_db) ex_model ([] :: (imkey \<times> int list) list) ''Plate''
     = (Inl IndexError, ex_model)"
  by (simp add: SumToGroup_def if_empty_populate_nonempty ex_model_not_empty py_index_def)

text \<open>
  Claim C7, amended to input maps that are not empty. On a populated model, for a known
  dimension and an input whose image keys all have a group in it and whose vectors all
  have the width \<open>n\<close>, \<^verbatim>\<open>SumToGroup\<close> raises nothing and leaves the model as it is; the
  keys of the map it returns are exactly the group keys of the input's image keys, and
  the value at a group key is the elementwise sum of the vectors of the input's image
  keys with that group key, added to zeros in the order of the input.
\<close>

theorem SumToGroup_sums:
  fixes s :: "'w::len word model" and imdata :: "(imkey \<times> 'a::{plus,zero} list) list"
  assumes "\<not> IsEmpty s" and "imdata \<noteq> []"
    and "map_of (groupMaps s) grp = Some gm"
    and "\<forall>x\<in>set imdata. map_of gm (fst x) \<noteq> None \<and> length (snd x) = n"
  shows "\<exists>groupData. SumToGroup dbo s imdata grp = (Inr groupData, s)
           \<and> distinct (map fst groupData)
           \<and> set (map fst groupData) = {g. \<exists>x\<in>set imdata. map_of gm (fst x) = Some g}
           \<and> (\<forall>g\<in>set (map fst groupData).
                 map_of groupData g
                   = Some (vector_sum n
                             (map snd (filter (\<lambda>(k, v). map_of gm k = Some g) imdata))))"
proof -
  have n0: "length (snd (hd imdata)) = n"
    using assms(2,4) by (cases imdata) auto
  have known: "\<forall>k\<in>set (map fst imdata). map_of gm k \<noteq> None"
    using assms(4) by auto
  from zeros_loop_known [OF assms(3) known, of n "[] :: (gkey \<times> 'a list) list"]
  obtain gd where
    z: "zeros_loop s grp n (map fst imdata) ([] :: (gkey \<times> 'a list) list) = Inr gd"
    and ks: "set (map fst gd) = {g. \<exists>k\<in>set (map fst imdata). map_of gm k = Some g}"
    and d: "distinct (map fst gd)"
    and zs: "list_all (\<lambda>(g, a). a = np_zeros n) gd"
    by auto
  have look: "map_of gd g = Some (np_zeros n)" if "g \<in> set (map fst gd)" for g
  proof -
    from that obtain a where "map_of gd g = Some a"
      by (metis list.set_map map_of_eq_None_iff not_Some_eq)
    moreover from this have "(g, a) \<in> set gd" by (rule map_of_SomeD)
    ultimately show ?thesis using zs by (auto simp: list_all_iff)
  qed
  have p1: "\<forall>x\<in>set imdata. length (snd x) = n
              \<and> (\<exists>g acc. map_of gm (fst x) = Some g \<and> map_of gd g = Some acc)"
  proof
    fix x assume x: "x \<in> set imdata"
    with assms(4) obtain g where g: "map_of gm (fst x) = Some g" and l: "length (snd x) = n"
      by auto
    from x g have "g \<in> set (map fst gd)" unfolding ks by auto
    with look g l show "length (snd x) = n
        \<and> (\<exists>g acc. map_of gm (fst x) = Some g \<and> map_of gd g = Some acc)"
      by blast
  qed
  have p2: "\<forall>g acc. map_of gd g = Some acc \<longrightarrow> length acc = n"
  proof (intro allI impI)
    fix g acc assume a: "map_of gd g = Some acc"
    then have "(g, acc) \<in> set gd" by (rule map_of_SomeD)
    with zs show "length acc = n" by (auto simp: list_all_iff np_zeros_def)
  qed
  from sum_loop_equal_width [OF assms(3) p1 p2] obtain gd' where
    r: "sum_loop s grp imdata gd = Inr gd'" and ks': "map fst gd' = map fst gd"
    and val: "\<forall>g acc. map_of gd g = Some acc \<longrightarrow>
                map_of gd' g
                  = Some (foldl (\<lambda>acc v. map2 (+) acc v) acc
                            (map snd (filter (\<lambda>(k, v). map_of gm k = Some g) imdata)))"
    by blast
  have run: "SumToGroup dbo s imdata grp = (Inr gd', s)"
    using assms(1,2)
    by (simp add: SumToGroup_def if_empty_populate_nonempty first_vector n0 z r)
  have vals: "\<forall>g\<in>set (map fst gd').
                map_of gd' g
                  = Some (vector_sum n
                            (map snd (filter (\<lambda>(k, v). map_of gm k = Some g) imdata)))"
    using look val unfolding ks' vector_sum_def np_zeros_def by blast
  have keys: "set (map fst gd') = {g. \<exists>x\<in>set imdata. map_of gm (fst x) = Some g}"
    unfolding ks' ks by auto
  from run d keys vals show ?thesis
    by (intro exI [of _ gd']) (simp add: ks')
qed

text \<open>
  \<open>e1: [1, 2]\<close> and \<open>e2: [3, 4]\<close> on plate 0 and \<open>e3: [5, 6]\<close> on plate 1 give
  \<open>[4, 6]\<close> for plate 0 and \<open>[5, 6]\<close> for plate 1.
\<close>

theorem SumToGroup_sums_witness:
  "SumToGroup (Some ex_db) ex_model [(e1, [1, 2 :: int]), (e2, [3, 4]), (e3, [5, 6])] ''Plate''
     = (Inr [([IntV 0], [4, 6]), ([IntV 1], [5, 6])], ex_model)
   \<and> vector_sum 2 (map snd (filter (\<lambda>(k, v). map_of plate_map k = Some [IntV 0])
                               [(e1, [1, 2 :: int]), (e2, [3, 4]), (e3, [5, 6])])) = [4, 6]"
proof -
  have a: "[(e1, [1, 2 :: int]), (e2, [3, 4]), (e3, [5, 6])] \<noteq> []" by simp
  have b: "map_of (groupMaps ex_model) ''Plate'' = Some plate_map"
    by (simp add: ex_model_def)
  have c: "\<forall>x\<in>set [(e1, [1, 2 :: int]), (e2, [3, 4]), (e3, [5, 6])].
             map_of plate_map (fst x) \<noteq> None \<and> length (snd x) = 2"
    by (simp add: plate_map_def e1_def e2_def e3_def)
  have v: "SumToGroup (Some ex_db) ex_model [(e1, [1, 2 :: int]), (e2, [3, 4]), (e3, [5, 6])]
             ''Plate''
           = (Inr [([IntV 0], [4, 6]), ([IntV 1], [5, 6])], ex_model)"
    by code_simp
  from SumToGroup_sums [OF ex_model_not_empty a b c, of "Some ex_db"]
  obtain gd where
    r: "SumToGroup (Some ex_db) ex_model [(e1, [1, 2 :: int]), (e2, [3, 4]), (e3, [5, 6])]
          ''Plate'' = (Inr gd, ex_model)"
    and w: "\<forall>g\<in>set (map fst gd).
              map_of gd g
                = Some (vector_sum 2
                          (map snd (filter (\<lambda>(k, v). map_of plate_map k = Some g)
                                      [(e1, [1, 2 :: int]), (e2, [3, 4]), (e3, [5, 6])])))"
    by blast
  from r v have gd: "gd = [([IntV 0], [4, 6]), ([IntV 1], [5, 6])]" by simp
  from w have "map_of gd [IntV 0]
      = Some (vector_sum 2
                (map snd (filter (\<lambda>(k, v). map_of plate_map k = Some [IntV 0])
                            [(e1, [1, 2 :: int]), (e2, [3, 4]), (e3, [5, 6])])))"
    unfolding gd by simp
  then have "vector_sum 2 (map snd (filter (\<lambda>(k, v). map_of plate_map k = Some [IntV 0])
                               [(e1, [1, 2 :: int]), (e2, [3, 4]), (e3, [5, 6])])) = [4, 6]"
    unfolding gd by simp
  with v show ?thesis by simp
qed

text \<open>
  The second loop stops with \<^verbatim>\<open>ValueError\<close> at the first vector whose length is neither
  the width of the sums nor one.
\<close>

lemma sum_loop_mismatch:
  fixes s :: "'w::len word model"
  assumes gm: "map_of (groupMaps s) grp = Some gm"
    and "\<forall>x\<in>set xs. \<exists>g acc. map_of gm (fst x) = Some g \<and> map_of gd g = Some acc"
    and "\<forall>g acc. map_of gd g = Some acc \<longrightarrow> length acc = n"
    and "\<exists>x\<in>set xs. length (snd x) \<noteq> n \<and> length (snd x) \<noteq> 1"
  shows "sum_loop s grp xs (gd :: (gkey \<times> ('a::{plus,zero}) list) list) = Inl ValueError"
  using assms(2,3,4)
proof (induction xs arbitrary: gd)
  case Nil
  then show ?case by simp
next
  case (Cons x xs)
  obtain k v where x: "x = (k, v)" by (cases x)
  from Cons.prems(1) obtain g acc where
    g: "map_of gm k = Some g" and acc: "map_of gd g = Some acc"
    by (auto simp: x)
  have la: "length acc = n" using Cons.prems(2) acc by blast
  show ?case
  proof (cases "length v = n \<or> length v = 1")
    case False
    then show ?thesis
      by (simp add: x group_of_known [OF gm] dict_get_def g acc np_iadd_def la)
  next
    case True
    have "\<exists>acc'. np_iadd acc v = Inr acc' \<and> length acc' = n"
    proof (cases "length v = n")
      case same: True
      then show ?thesis by (simp add: np_iadd_def la)
    next
      case other: False
      with True have "length v = 1" by simp
      with other show ?thesis by (simp add: np_iadd_def la)
    qed
    then obtain acc' where ia: "np_iadd acc v = Inr acc'" and la': "length acc' = n"
      by blast
    define gd1 where "gd1 = AList.update g acc' gd"
    have step: "sum_loop s grp (x # xs) gd = sum_loop s grp xs gd1"
      by (simp add: x group_of_known [OF gm] dict_get_def g acc ia gd1_def)
    have m1: "map_of gd1 = (map_of gd)(g \<mapsto> acc')"
      by (simp add: gd1_def update_conv')
    have p1: "\<forall>y\<in>set xs. \<exists>g acc. map_of gm (fst y) = Some g \<and> map_of gd1 g = Some acc"
    proof
      fix y assume "y \<in> set xs"
      with Cons.prems(1) obtain g' a' where
        "map_of gm (fst y) = Some g'" "map_of gd g' = Some a'"
        by fastforce
      then show "\<exists>g acc. map_of gm (fst y) = Some g \<and> map_of gd1 g = Some acc"
        by (cases "g' = g") (simp_all add: m1)
    qed
    have p2: "\<forall>g acc. map_of gd1 g = Some acc \<longrightarrow> length acc = n"
      using Cons.prems(2) by (auto simp: m1 la')
    have p3: "\<exists>y\<in>set xs. length (snd y) \<noteq> n \<and> length (snd y) \<noteq> 1"
      using Cons.prems(3) True by (auto simp: x)
    from Cons.IH [OF p1 p2 p3] step show ?thesis by simp
  qed
qed

text \<open>
  Claim C8, as stated, fails: two vectors of different lengths do not always raise. A
  vector of length one is broadcast by \<^verbatim>\<open>+=\<close>; \<open>[1, 2]\<close> and \<open>[3]\<close> on the same plate
  are summed to \<open>[4, 5]\<close>.
\<close>

theorem SumToGroup_broadcasts_single:
  "length [1, 2 :: int] \<noteq> length [3 :: int]
   \<and> SumToGroup (Some ex_db) ex_model [(e1, [1, 2 :: int]), (e2, [3])] ''Plate''
       = (Inr [([IntV 0], [4, 5])], ex_model)"
proof -
  have "SumToGroup (Some ex_db) ex_model [(e1, [1, 2 :: int]), (e2, [3])] ''Plate''
          = (Inr [([IntV 0], [4, 5])], ex_model)"
    by code_simp
  then show ?thesis by simp
qed

text \<open>
  Claim C8, amended. On a populated model and for a known dimension: when every image
  key of the input has a group and some vector has a length that is neither the length
  of the first vector nor one, \<^verbatim>\<open>SumToGroup\<close> raises \<^verbatim>\<open>ValueError\<close>, NumPy's error
  for shapes that do not fit; when some image key of the input has no group in the
  dimension, it raises \<^verbatim>\<open>KeyError\<close>. In both cases no result is returned and the
  model is left as it is.
\<close>

theorem SumToGroup_raises:
  fixes s :: "'w::len word model" and imdata :: "(imkey \<times> 'a::{plus,zero} list) list"
  assumes "\<not> IsEmpty s" and "map_of (groupMaps s) grp = Some gm"
  shows "((\<forall>x\<in>set imdata. map_of gm (fst x) \<noteq> None)
           \<and> (\<exists>x\<in>set imdata. length (snd x) \<noteq> length (snd (hd imdata)) \<and> length (snd x) \<noteq> 1)
          \<longrightarrow> SumToGroup dbo s imdata grp = (Inl ValueError, s))
       \<and> ((\<exists>x\<in>set imdata. map_of gm (fst x) = None)
          \<longrightarrow> SumToGroup dbo s imdata grp = (Inl KeyError, s))"
proof (intro conjI impI)
  assume a: "(\<forall>x\<in>set imdata. map_of gm (fst x) \<noteq> None)
           \<and> (\<exists>x\<in>set imdata. length (snd x) \<noteq> length (snd (hd imdata)) \<and> length (snd x) \<noteq> 1)"
  define n where "n = length (snd (hd imdata))"
  from a have ne: "imdata \<noteq> []" by auto
  have known: "\<forall>k\<in>set (map fst imdata). map_of gm k \<noteq> None"
    using a by auto
  from zeros_loop_known [OF assms(2) known, of n "[] :: (gkey \<times> 'a list) list"]
  obtain gd where
    z: "zeros_loop s grp n (map fst imdata) ([] :: (gkey \<times> 'a list) list) = Inr gd"
    and ks: "set (map fst gd) = {g. \<exists>k\<in>set (map fst imdata). map_of gm k = Some g}"
    and zs: "list_all (\<lambda>(g, a). a = np_zeros n) gd"
    by auto
  have p1: "\<forall>x\<in>set imdata. \<exists>g acc. map_of gm (fst x) = Some g \<and> map_of gd g = Some acc"
  proof
    fix x assume x: "x \<in> set imdata"
    with a obtain g where g: "map_of gm (fst x) = Some g" by auto
    from x g have "g \<in> set (map fst gd)" unfolding ks by auto
    then obtain acc where "map_of gd g = Some acc"
      by (metis list.set_map map_of_eq_None_iff not_Some_eq)
    with g show "\<exists>g acc. map_of gm (fst x) = Some g \<and> map_of gd g = Some acc" by blast
  qed
  have p2: "\<forall>g acc. map_of gd g = Some acc \<longrightarrow> length acc = n"
  proof (intro allI impI)
    fix g acc assume "map_of gd g = Some acc"
    then have "(g, acc) \<in> set gd" by (rule map_of_SomeD)
    with zs show "length acc = n" by (auto simp: list_all_iff np_zeros_def)
  qed
  have p3: "\<exists>x\<in>set imdata. length (snd x) \<noteq> n \<and> length (snd x) \<noteq> 1"
    using a by (simp add: n_def)
  have "sum_loop s grp imdata gd = Inl ValueError"
    using assms(2) p1 p2 p3 by (rule sum_loop_mismatch)
  then show "SumToGroup dbo s imdata grp = (Inl ValueError, s)"
    using assms(1) ne
    by (simp add: SumToGroup_def if_empty_populate_nonempty first_vector n_def [symmetric] z)
next
  assume b: "\<exists>x\<in>set imdata. map_of gm (fst x) = None"
  then have ne: "imdata \<noteq> []" by auto
  from b have "\<exists>k\<in>set (map fst imdata). map_of gm k = None" by auto
  with assms(2) have "zeros_loop s grp (length (snd (hd imdata))) (map fst imdata)
                        ([] :: (gkey \<times> 'a list) list) = Inl KeyError"
    by (rule zeros_loop_unknown)
  then show "SumToGroup dbo s imdata grp = (Inl KeyError, s)"
    using assms(1) ne by (simp add: SumToGroup_def if_empty_populate_nonempty first_vector)
qed

theorem SumToGroup_raises_witness:
  "SumToGroup (Some ex_db) ex_model [(e1, [1, 2 :: int]), (e2, [3, 4, 5])] ''Plate''
     = (Inl ValueError, ex_model)
   \<and> SumToGroup (Some ex_db) ex_model [(e1, [1, 2 :: int]), ([9, 9], [3, 4])] ''Plate''
     = (Inl KeyError, ex_model)"
proof -
  have b: "map_of (groupMaps ex_model) ''Plate'' = Some plate_map"
    by (simp add: ex_model_def)
  have c: "(\<forall>x\<in>set [(e1, [1, 2 :: int]), (e2, [3, 4, 5])]. map_of plate_map (fst x) \<noteq> None)
           \<and> (\<exists>x\<in>set [(e1, [1, 2 :: int]), (e2, [3, 4, 5])].
                 length (snd x) \<noteq> length (snd (hd [(e1, [1, 2 :: int]), (e2, [3, 4, 5])]))
                 \<and> length (snd x) \<noteq> 1)"
    by (simp add: plate_map_def e1_def e2_def e3_def)
  have d: "\<exists>x\<in>set [(e1, [1, 2 :: int]), ([9, 9], [3, 4])]. map_of plate_map (fst x) = None"
    by (simp add: plate_map_def e1_def e2_def e3_def)
  from SumToGroup_raises [OF ex_model_not_empty b,
         of "[(e1, [1, 2 :: int]), (e2, [3, 4, 5])]" "Some ex_db"] c
  have v: "SumToGroup (Some ex_db) ex_model [(e1, [1, 2 :: int]), (e2, [3, 4, 5])] ''Plate''
             = (Inl ValueError, ex_model)"
    by blast
  from SumToGroup_raises [OF ex_model_not_empty b,
         of "[(e1, [1, 2 :: int]), ([9, 9], [3, 4])]" "Some ex_db"] d
  have k: "SumToGroup (Some ex_db) ex_model [(e1, [1, 2 :: int]), ([9, 9], [3, 4])] ''Plate''
             = (Inl KeyError, ex_model)"
    by blast
  from v k show ?thesis by simp
qed

end
